theory Spec2Isabelle
  imports Complex_Main "HOL-Library.AList" "HOL-Library.DAList"
begin

section \<open>Cell types (WorldMap.js)\<close>

text \<open>
  \<^verbatim>\<open>CELL_TYPES\<close> is an object used as an enumeration: seven named cell types, each
  standing for a colour string. The two classification tables
  \<^verbatim>\<open>SOLID_CELL_TYPES\<close> and \<^verbatim>\<open>PERMANENT_CELL_TYPES\<close> are objects whose keys are the
  member types; a lookup of any other type gives \<^verbatim>\<open>undefined\<close>, which is falsy.
\<close>

datatype CellType = WALL | EMPTY | START | GOAL | CALCULATING | CALCULATED | PATH

definition SOLID_CELL_TYPES :: "CellType \<Rightarrow> bool" where
  "SOLID_CELL_TYPES c = (c = WALL)"

definition PERMANENT_CELL_TYPES :: "CellType \<Rightarrow> bool" where
  "PERMANENT_CELL_TYPES c = (c = START \<or> c = GOAL \<or> c = WALL)"

section \<open>JavaScript values, vectors and Map objects\<close>

text \<open>
  The flat arrays of the program (\<^verbatim>\<open>changedCells\<close>, \<^verbatim>\<open>cellQueue\<close>, the arguments of a
  message) hold cell types and numbers, three entries per cell. Coordinates are
  integers.
\<close>

datatype JSValue = Cell CellType | Num int

type_synonym Vec2 = "int \<times> int"

text \<open>
  Modelled from the spec: \<^verbatim>\<open>UMath.Vec2.add\<close> belongs to the wCanvas library, which is not
  in src/. The spec names the neighbours of a coordinate by offsets (+x, -x, +y, -y), so
  the sum is taken component by component.
\<close>

definition Vec2_add :: "Vec2 \<Rightarrow> Vec2 \<Rightarrow> Vec2" where
  "Vec2_add a b = (fst a + fst b, snd a + snd b)"

text \<open>
  A JavaScript \<^verbatim>\<open>Map\<close> keeps its entries in insertion order and holds each key once;
  \<^verbatim>\<open>set\<close> on a key that is present replaces the value where it stands, \<^verbatim>\<open>set\<close> on a
  new key appends an entry. That is an association list with distinct keys.
  \<open>Map_modify m k f\<close> stands for a mutating call on the object stored under \<open>k\<close>
  (\<^verbatim>\<open>m.get(k).set(...)\<close>): the entry stays where it is and holds the changed object.
\<close>

type_synonym ('k, 'v) JSMap = "('k, 'v) alist"

definition Map_new :: "('k, 'v) JSMap" where
  "Map_new = DAList.empty"

definition Map_has :: "('k, 'v) JSMap \<Rightarrow> 'k \<Rightarrow> bool" where
  "Map_has m k = (DAList.lookup m k \<noteq> None)"

definition Map_get :: "('k, 'v) JSMap \<Rightarrow> 'k \<Rightarrow> 'v option" where
  "Map_get m k = DAList.lookup m k"

definition Map_set :: "('k, 'v) JSMap \<Rightarrow> 'k \<Rightarrow> 'v \<Rightarrow> ('k, 'v) JSMap" where
  "Map_set m k v = DAList.update k v m"

definition Map_modify :: "('k, 'v) JSMap \<Rightarrow> 'k \<Rightarrow> ('v \<Rightarrow> 'v) \<Rightarrow> ('k, 'v) JSMap" where
  "Map_modify m k f = DAList.map_entry k f m"

definition Map_entries :: "('k, 'v) JSMap \<Rightarrow> ('k \<times> 'v) list" where
  "Map_entries m = DAList.impl_of m"

section \<open>The class WorldMap (WorldMap.js)\<close>

text \<open>
  The fields of a \<^verbatim>\<open>WorldMap\<close>. \<open>size'\<close> and \<open>map'\<close> are the fields \<^verbatim>\<open>size\<close> and \<^verbatim>\<open>map\<close>.
  \<open>internalFrameBuffer\<close> is \<open>None\<close> for \<^verbatim>\<open>null\<close>; of the canvas only the flag
  \<^verbatim>\<open>isDirty\<close> is kept, its pixels are not part of the model. \<^verbatim>\<open>draw\<close> only reads the map
  and paints, and is not modelled.
\<close>

record wCanvas =
  isDirty :: bool

record WorldMap =
  pos :: Vec2
  size' :: Vec2
  map' :: "(int, (int, CellType) JSMap) JSMap"
  hasBoundary :: bool
  showBounds :: bool
  internalFrameBuffer :: "wCanvas option"
  changedCells :: "JSValue list"

text \<open>
  The constructor. \<open>canvas\<close> is the canvas that \<^verbatim>\<open>new wCanvas(...)\<close> would give, and \<open>None\<close>
  where \<^verbatim>\<open>document\<close> is undefined (in a worker).
\<close>

definition new_WorldMap ::
  "wCanvas option \<Rightarrow> int \<Rightarrow> int \<Rightarrow> int \<Rightarrow> int \<Rightarrow> bool \<Rightarrow> bool \<Rightarrow> bool \<Rightarrow> WorldMap" where
  "new_WorldMap canvas x y w h hasBoundary' showBounds' createInternalBuffer =
     \<lparr> pos = (x, y), size' = (w, h), map' = Map_new,
       hasBoundary = hasBoundary', showBounds = showBounds',
       internalFrameBuffer = (if canvas = None \<or> \<not> createInternalBuffer then None else canvas),
       changedCells = [] \<rparr>"

definition clearMap :: "'a WorldMap_scheme \<Rightarrow> 'a WorldMap_scheme" where
  "clearMap this =
     this\<lparr> map' := Map_new,
           internalFrameBuffer :=
             (case internalFrameBuffer this of
                None \<Rightarrow> None
              | Some fb \<Rightarrow> Some (fb\<lparr>isDirty := True\<rparr>)) \<rparr>"

definition getCell :: "'a WorldMap_scheme \<Rightarrow> int \<Rightarrow> int \<Rightarrow> CellType" where
  "getCell this x y =
     (if hasBoundary this \<and>
         (x < 0 \<or> x \<ge> fst (size' this) \<or> y < 0 \<or> y \<ge> snd (size' this))
      then WALL
      else if Map_has (map' this) x then
        (case Map_get (map' this) x of
           Some col \<Rightarrow> (if Map_has col y then (case Map_get col y of Some c \<Rightarrow> c | None \<Rightarrow> EMPTY)
                        else EMPTY)
         | None \<Rightarrow> EMPTY)
      else EMPTY)"

text \<open>
  \<^verbatim>\<open>putCell\<close> returns the cell it reports and the map after the call. Every caller in
  the program passes a cell type, so the default of the first parameter is not used.
\<close>

definition putCell ::
  "'a WorldMap_scheme \<Rightarrow> CellType \<Rightarrow> int \<Rightarrow> int \<Rightarrow> CellType \<times> 'a WorldMap_scheme" where
  "putCell this cell x y =
     (let selectedCell = getCell this x y in
      if PERMANENT_CELL_TYPES selectedCell then (selectedCell, this)
      else
        let m1 = (if \<not> Map_has (map' this) x then Map_set (map' this) x Map_new
                  else map' this);
            m2 = Map_modify m1 x (\<lambda>col. Map_set col y cell);
            this1 = this\<lparr>map' := m2\<rparr>;
            this2 = (if internalFrameBuffer this1 \<noteq> None
                     then this1\<lparr>changedCells := changedCells this1 @ [Cell cell, Num x, Num y]\<rparr>
                     else this1)
        in (cell, this2))"

text \<open>
  \<^verbatim>\<open>hollowRect\<close> calls \<^verbatim>\<open>this.putCell\<close>, which a subclass overrides; \<open>put\<close> is the
  method that the call dispatches to. The two \<^verbatim>\<open>for\<close> loops run over
  \<open>0, ..., w - 1\<close> and \<open>0, ..., h - 1\<close>.
\<close>

definition hollowRect_via ::
  "('s \<Rightarrow> CellType \<Rightarrow> int \<Rightarrow> int \<Rightarrow> CellType \<times> 's) \<Rightarrow>
     's \<Rightarrow> CellType \<Rightarrow> int \<Rightarrow> int \<Rightarrow> int \<Rightarrow> int \<Rightarrow> 's" where
  "hollowRect_via put this cell x y w h =
     fold (\<lambda>relX s.
             if relX = 0 \<or> relX = w - 1
             then fold (\<lambda>relY s'. snd (put s' cell (x + relX) (y + relY))) [0..h - 1] s
             else snd (put (snd (put s cell (x + relX) y)) cell (x + relX) (y + h - 1)))
          [0..w - 1] this"

definition hollowRect ::
  "'a WorldMap_scheme \<Rightarrow> CellType \<Rightarrow> int \<Rightarrow> int \<Rightarrow> int \<Rightarrow> int \<Rightarrow> 'a WorldMap_scheme" where
  "hollowRect = hollowRect_via putCell"

type_synonym NodePair = "Vec2 \<times> CellType"

definition mapToNodePairArray :: "'a WorldMap_scheme \<Rightarrow> bool \<Rightarrow> NodePair list" where
  "mapToNodePairArray this ignoreEmptyCells =
     concat (map (\<lambda>(x, col).
                    map (\<lambda>(y, cell). ((x, y), cell))
                      (filter (\<lambda>(y, cell). \<not> ignoreEmptyCells \<or> cell \<noteq> EMPTY)
                         (Map_entries col)))
               (Map_entries (map' this)))"

definition isCellType :: "'a WorldMap_scheme \<Rightarrow> CellType \<Rightarrow> int \<Rightarrow> int \<Rightarrow> bool" where
  "isCellType this cell x y = (getCell this x y = cell)"

definition isCellSolid :: "'a WorldMap_scheme \<Rightarrow> int \<Rightarrow> int \<Rightarrow> bool" where
  "isCellSolid this x y = (if SOLID_CELL_TYPES (getCell this x y) then True else False)"

definition getNeighbours :: "'a WorldMap_scheme \<Rightarrow> int \<Rightarrow> int \<Rightarrow> bool \<Rightarrow> Vec2 list" where
  "getNeighbours this x y diagonals =
     (let origin = (x, y);
          possibleNeighbours =
            [Vec2_add origin (1, 0), Vec2_add origin (- 1, 0),
             Vec2_add origin (0, 1), Vec2_add origin (0, - 1)];
          possibleNeighbours' =
            (if diagonals
             then possibleNeighbours @
                    [Vec2_add origin (1, 0), Vec2_add origin (- 1, 0),
                     Vec2_add origin (0, 1), Vec2_add origin (0, - 1)]
             else possibleNeighbours)
      in filter (\<lambda>neighbour. \<not> isCellSolid this (fst neighbour) (snd neighbour))
           possibleNeighbours')"

section \<open>The class WorkerWorldMap (WorldMap.js)\<close>

text \<open>
  A message is an array whose first element is its type, a string, followed by its
  arguments. \<open>workerGlobal\<close> holds what the map has passed to
  \<^verbatim>\<open>workerGlobal.postMessage\<close>, oldest message first.
\<close>

type_synonym Message = "string \<times> JSValue list"

record WorkerWorldMap = WorldMap +
  workerGlobal :: "Message list"
  cellQueue :: "JSValue list"
  alwaysUpdate :: bool
  maxCellQueue :: int

definition new_WorkerWorldMap :: "int \<Rightarrow> int \<Rightarrow> bool \<Rightarrow> bool \<Rightarrow> int \<Rightarrow> WorkerWorldMap" where
  "new_WorkerWorldMap w h hasBoundary' alwaysUpdate' maxCellQueue' =
     WorldMap.extend (new_WorldMap None 0 0 w h hasBoundary' False False)
       (WorkerWorldMap.fields [] [] alwaysUpdate' maxCellQueue')"

definition postMessage :: "WorkerWorldMap \<Rightarrow> Message \<Rightarrow> WorkerWorldMap" where
  "postMessage this msg = this\<lparr>workerGlobal := workerGlobal this @ [msg]\<rparr>"

definition WorkerWorldMap_clearMap :: "WorkerWorldMap \<Rightarrow> WorkerWorldMap" where
  "WorkerWorldMap_clearMap this = postMessage (clearMap this) (''map_reset'', [])"

definition sendCellQueue :: "WorkerWorldMap \<Rightarrow> WorkerWorldMap" where
  "sendCellQueue this =
     (let msg = (''map_add_cells'', cellQueue this)
      in (postMessage this msg)\<lparr>cellQueue := []\<rparr>)"

definition WorkerWorldMap_putCell ::
  "WorkerWorldMap \<Rightarrow> CellType \<Rightarrow> int \<Rightarrow> int \<Rightarrow> CellType \<times> WorkerWorldMap" where
  "WorkerWorldMap_putCell this cellType x y =
     (let (addedCell, this1) = putCell this cellType x y;
          this2 =
            (if alwaysUpdate this1
             then postMessage this1 (''map_add_cells'', [Cell cellType, Num x, Num y])
             else
               let this' = this1\<lparr>cellQueue := cellQueue this1 @ [Cell cellType, Num x, Num y]\<rparr>
               in if int (length (cellQueue this')) \<ge> maxCellQueue this'
                  then sendCellQueue this' else this')
      in (addedCell, this2))"

definition WorkerWorldMap_hollowRect ::
  "WorkerWorldMap \<Rightarrow> CellType \<Rightarrow> int \<Rightarrow> int \<Rightarrow> int \<Rightarrow> int \<Rightarrow> WorkerWorldMap" where
  "WorkerWorldMap_hollowRect = hollowRect_via WorkerWorldMap_putCell"

section \<open>The main thread (index.js)\<close>

definition MIN_WORLD_SIZE :: int where
  "MIN_WORLD_SIZE = 8"

definition MAX_WORLD_SIZE :: int where
  "MAX_WORLD_SIZE = 400"

definition MAX_ACTION_TIME :: real where
  "MAX_ACTION_TIME = 100"

definition MAX_CELL_QUEUE :: int where
  "MAX_CELL_QUEUE = 50"

text \<open>
  The globals of the main thread that the handlers below read or write.
  \<open>actionDelay\<close> and \<open>placeholder\<close> are \<open>None\<close> while \<^verbatim>\<open>undefined\<close>. The selected
  algorithm is only passed on to the worker, so its type is left open. \<open>pathGenerator\<close>
  holds the start requests passed to \<^verbatim>\<open>pathGenerator.postMessage\<close>, oldest first; a
  request is the array of width, height, boundary flag, delay, maximum cell queue length
  and selected algorithm. \<^verbatim>\<open>SCALE\<close>, \<^verbatim>\<open>gridEnabled\<close> and \<^verbatim>\<open>restartMessage\<close> only steer the
  drawing and are left out; so is \<^verbatim>\<open>recalcScale\<close>, which writes \<^verbatim>\<open>SCALE\<close> and the
  position at which the world is drawn.
\<close>

type_synonym 'alg StartRequest = "int \<times> int \<times> bool \<times> real option \<times> int \<times> 'alg"

record 'alg Main =
  actionDelay :: "real option"
  WORLD_MAP :: WorldMap
  currentAlgorithm :: 'alg
  isPathGenLocked :: bool
  pathGenerator :: "'alg StartRequest list"
  placeholder :: "string option"

text \<open>
  The listener of the worker's messages. The loop of \<^verbatim>\<open>map_add_cells\<close> reads the
  arguments three at a time: a cell type and two numbers. The worker map only sends
  such arguments; on any other argument list the model gives \<open>None\<close>. The \<^verbatim>\<open>switch\<close> has
  no default case: a message of another type changes nothing.
\<close>

fun map_add_cells :: "JSValue list \<Rightarrow> WorldMap \<Rightarrow> WorldMap option" where
  "map_add_cells [] wm = Some wm"
| "map_add_cells (Cell c # Num x # Num y # args) wm = map_add_cells args (snd (putCell wm c x y))"
| "map_add_cells _ wm = None"

definition onMessage :: "'alg Main \<Rightarrow> Message \<Rightarrow> 'alg Main option" where
  "onMessage s ev =
     (let (messageType, args) = ev in
      if messageType = ''map_add_cells'' then
        (case map_add_cells args (WORLD_MAP s) of
           None \<Rightarrow> None
         | Some wm \<Rightarrow> Some (s\<lparr>WORLD_MAP := wm\<rparr>))
      else if messageType = ''map_reset'' then Some (s\<lparr>WORLD_MAP := clearMap (WORLD_MAP s)\<rparr>)
      else if messageType = ''lock_gen'' then Some (s\<lparr>isPathGenLocked := True\<rparr>)
      else if messageType = ''unlock_gen'' then Some (s\<lparr>isPathGenLocked := False\<rparr>)
      else Some s)"

definition generatePath :: "'alg Main \<Rightarrow> 'alg Main" where
  "generatePath s =
     (if isPathGenLocked s then s
      else s\<lparr>pathGenerator := pathGenerator s @
                [(fst (size' (WORLD_MAP s)), snd (size' (WORLD_MAP s)), hasBoundary (WORLD_MAP s),
                  actionDelay s, MAX_CELL_QUEUE, currentAlgorithm s)]\<rparr>)"

text \<open>
  The two settings handlers take an input element. \<^verbatim>\<open>parseInt\<close> and \<^verbatim>\<open>parseFloat\<close> are
  built into the language and are parameters here; \<open>None\<close> is \<^verbatim>\<open>NaN\<close>. A delay is only
  compared with \<open>0\<close> and with \<^verbatim>\<open>MAX_ACTION_TIME\<close>, where an infinite value behaves like
  any finite value on its side, so a parsed delay is a real number. Each handler gives
  back the element and the globals as it leaves them.
\<close>

record HTMLInputElement =
  el_value :: string
  el_placeholder :: string
  el_focused :: bool

datatype Axis = AxisX | AxisY

definition changeWorldSize ::
  "(string \<Rightarrow> int option) \<Rightarrow> HTMLInputElement \<Rightarrow> Axis \<Rightarrow> 'alg Main \<Rightarrow>
     HTMLInputElement \<times> 'alg Main" where
  "changeWorldSize parseInt element axis s =
     (case parseInt (el_value element) of
        None \<Rightarrow> (element\<lparr>el_value := []\<rparr>, s)
      | Some newValue \<Rightarrow>
          if isPathGenLocked s \<or> newValue < MIN_WORLD_SIZE \<or> newValue > MAX_WORLD_SIZE
          then (element\<lparr>el_value := []\<rparr>, s)
          else
            let wm = clearMap (WORLD_MAP s);
                wm' = (case axis of
                         AxisX \<Rightarrow> wm\<lparr>size' := (newValue, snd (size' wm))\<rparr>
                       | AxisY \<Rightarrow> wm\<lparr>size' := (fst (size' wm), newValue)\<rparr>)
            in (element, s\<lparr>WORLD_MAP := wm'\<rparr>))"

definition changeActionDelay ::
  "(string \<Rightarrow> real option) \<Rightarrow> HTMLInputElement \<Rightarrow> string \<Rightarrow> 'alg Main \<Rightarrow>
     HTMLInputElement \<times> 'alg Main" where
  "changeActionDelay parseFloat element noDelayPH s0 =
     (let ph = (case placeholder s0 of None \<Rightarrow> el_placeholder element | Some p \<Rightarrow> p);
          s = s0\<lparr>placeholder := Some ph\<rparr>
      in case parseFloat (el_value element) of
           None \<Rightarrow> (element\<lparr>el_value := []\<rparr>, s)
         | Some newDelay \<Rightarrow>
             if isPathGenLocked s \<or> newDelay > MAX_ACTION_TIME
             then (element\<lparr>el_value := []\<rparr>, s)
             else if newDelay \<le> 0 then
               (let element1 = element\<lparr>el_value := []\<rparr>;
                    element2 = (if noDelayPH \<noteq> []
                                then element1\<lparr>el_focused := False, el_placeholder := noDelayPH\<rparr>
                                else element1)
                in (element2, s\<lparr>actionDelay := None\<rparr>))
             else (element\<lparr>el_placeholder := ph\<rparr>, s\<lparr>actionDelay := Some newDelay\<rparr>))"

section \<open>Runs of the worker\<close>

text \<open>
  A put is one call of \<^verbatim>\<open>putCell\<close>: the cell type and the coordinate. \<open>flat\<close> lays a
  sequence of puts out the way the program's arrays hold them, three entries per put.
\<close>

type_synonym Put = "CellType \<times> int \<times> int"

definition flat :: "Put list \<Rightarrow> JSValue list" where
  "flat ps = concat (map (\<lambda>(c, x, y). [Cell c, Num x, Num y]) ps)"

definition puts :: "'a WorldMap_scheme \<Rightarrow> Put list \<Rightarrow> 'a WorldMap_scheme" where
  "puts this ps = fold (\<lambda>(c, x, y) s. snd (putCell s c x y)) ps this"

definition WorkerWorldMap_puts :: "WorkerWorldMap \<Rightarrow> Put list \<Rightarrow> WorkerWorldMap" where
  "WorkerWorldMap_puts this ps = fold (\<lambda>(c, x, y) s. snd (WorkerWorldMap_putCell s c x y)) ps this"

text \<open>
  Modelled from the spec: the worker script \<^verbatim>\<open>pathGen.js\<close>, which receives a start
  request, builds the worker's map and drives the selected algorithm, is not in src/.
  After the spec (4.3, 4.4): a run announces the lock, resets the producer-side map and
  propagates the reset, lets the strategy put cells step by step, forces a final flush
  of the pending batch and announces the unlock. The map is built from the width,
  height, boundary flag and maximum batch size of the request; the delivery mode is
  chosen at construction. What a strategy does is the sequence of its puts.
\<close>

definition run :: "int \<Rightarrow> int \<Rightarrow> bool \<Rightarrow> bool \<Rightarrow> int \<Rightarrow> Put list \<Rightarrow> WorkerWorldMap" where
  "run w h hasBoundary' alwaysUpdate' maxCellQueue' ps =
     (let m0 = new_WorkerWorldMap w h hasBoundary' alwaysUpdate' maxCellQueue';
          m1 = postMessage m0 (''lock_gen'', []);
          m2 = WorkerWorldMap_clearMap m1;
          m3 = WorkerWorldMap_puts m2 ps;
          m4 = sendCellQueue m3
      in postMessage m4 (''unlock_gen'', []))"

text \<open>
  The batches of cells among the messages of the worker, in the order in which they were
  posted, and their replay through the listener of the main thread.
\<close>

definition cells_added :: "Message list \<Rightarrow> Message list" where
  "cells_added msgs = filter (\<lambda>msg. fst msg = ''map_add_cells'') msgs"

fun deliver :: "'alg Main \<Rightarrow> Message list \<Rightarrow> 'alg Main option" where
  "deliver s [] = Some s"
| "deliver s (msg # msgs) =
     (case onMessage s msg of None \<Rightarrow> None | Some s' \<Rightarrow> deliver s' msgs)"

section \<open>Observations used to state the properties\<close>

text \<open>
  \<open>stored this x y\<close> is the state recorded in the sparse store at a coordinate, if any.
  \<open>outOfBounds this x y\<close> says that the coordinate lies outside
  \<open>[0, width) \<times> [0, height)\<close>. A write is a call of \<^verbatim>\<open>putCell\<close> or of \<^verbatim>\<open>hollowRect\<close>.
\<close>

definition stored :: "'a WorldMap_scheme \<Rightarrow> int \<Rightarrow> int \<Rightarrow> CellType option" where
  "stored this x y =
     (case Map_get (map' this) x of None \<Rightarrow> None | Some col \<Rightarrow> Map_get col y)"

definition outOfBounds :: "'a WorldMap_scheme \<Rightarrow> int \<Rightarrow> int \<Rightarrow> bool" where
  "outOfBounds this x y = (x < 0 \<or> fst (size' this) \<le> x \<or> y < 0 \<or> snd (size' this) \<le> y)"

datatype Write = PutCell CellType int int | HollowRect CellType int int int int

fun apply_write :: "'a WorldMap_scheme \<Rightarrow> Write \<Rightarrow> 'a WorldMap_scheme" where
  "apply_write this (PutCell cell x y) = snd (putCell this cell x y)"
| "apply_write this (HollowRect cell x y w h) = hollowRect this cell x y w h"

definition apply_writes :: "'a WorldMap_scheme \<Rightarrow> Write list \<Rightarrow> 'a WorldMap_scheme" where
  "apply_writes this ws = fold (\<lambda>w s. apply_write s w) ws this"

definition same_grid :: "'a WorldMap_scheme \<Rightarrow> 'b WorldMap_scheme \<Rightarrow> bool" where
  "same_grid a b = (map' a = map' b \<and> size' a = size' b \<and> hasBoundary a = hasBoundary b)"

text \<open>
  What happens on the main thread between a lock and its unlock: the restart key is
  pressed, which calls \<^verbatim>\<open>generatePath\<close>, or a message of the worker arrives.
  \<open>replayPairs\<close> puts each pair of a snapshot back through \<^verbatim>\<open>putCell\<close>, in order.
\<close>

datatype Event = RestartKey | WorkerMessage Message

fun main_event :: "'alg Main \<Rightarrow> Event \<Rightarrow> 'alg Main option" where
  "main_event s RestartKey = Some (generatePath s)"
| "main_event s (WorkerMessage msg) = onMessage s msg"

fun main_events :: "'alg Main \<Rightarrow> Event list \<Rightarrow> 'alg Main option" where
  "main_events s [] = Some s"
| "main_events s (ev # evs) =
     (case main_event s ev of None \<Rightarrow> None | Some s' \<Rightarrow> main_events s' evs)"

definition replayPairs :: "'a WorldMap_scheme \<Rightarrow> NodePair list \<Rightarrow> 'a WorldMap_scheme" where
  "replayPairs this pairs = fold (\<lambda>((x, y), cell) s. snd (putCell s cell x y)) pairs this"

text \<open>
  \<open>reported m bss qs\<close> relates a worker map to the puts it has passed on: \<open>bss\<close> are
  the batches posted so far, each a whole number of puts, and \<open>qs\<close> are the puts waiting
  in the cell queue, which stays empty in always-update mode.
\<close>

definition reported :: "WorkerWorldMap \<Rightarrow> Put list list \<Rightarrow> Put list \<Rightarrow> bool" where
  "reported m bss qs =
     (cells_added (workerGlobal m) = map (\<lambda>b. (''map_add_cells'', flat b)) bss \<and>
      cellQueue m = flat qs \<and> (alwaysUpdate m \<longrightarrow> qs = []))"

section \<open>Example inputs\<close>

text \<open>
  The world of the main thread as \<^verbatim>\<open>index.js\<close> builds it, 30 by 15 cells with a
  boundary, here without a frame buffer; the same world holding a start, a goal and
  a cell under calculation; and a world without a boundary.
\<close>

definition example_world :: WorldMap where
  "example_world = new_WorldMap None 0 0 30 15 True True True"

definition example_map :: WorldMap where
  "example_map = puts example_world [(START, 1, 2), (CALCULATING, 3, 4), (GOAL, 3, 5)]"

definition example_unbounded :: WorldMap where
  "example_unbounded = new_WorldMap None 0 0 30 15 False False False"

text \<open>
  A worker map in threshold mode with the maximum cell queue length that \<^verbatim>\<open>index.js\<close>
  passes, one in always-update mode, each after a start was put at \<open>(1, 2)\<close>; seventeen
  puts on distinct empty cells; and the main thread, idle and locked.
\<close>

definition example_worker :: WorkerWorldMap where
  "example_worker =
     snd (WorkerWorldMap_putCell (new_WorkerWorldMap 30 15 True False MAX_CELL_QUEUE) START 1 2)"

definition example_worker_always :: WorkerWorldMap where
  "example_worker_always =
     snd (WorkerWorldMap_putCell (new_WorkerWorldMap 30 15 True True MAX_CELL_QUEUE) START 1 2)"

definition example_puts17 :: "Put list" where
  "example_puts17 = map (\<lambda>x. (CALCULATING, x, 0)) [0..16]"

definition example_idle :: "nat Main" where
  "example_idle =
     \<lparr> actionDelay = Some 25, WORLD_MAP = example_map, currentAlgorithm = 0,
       isPathGenLocked = False, pathGenerator = [], placeholder = None \<rparr>"

definition example_locked :: "nat Main" where
  "example_locked = example_idle\<lparr>isPathGenLocked := True\<rparr>"

definition example_element :: "string \<Rightarrow> HTMLInputElement" where
  "example_element v = \<lparr> el_value = v, el_placeholder = ''delay'', el_focused = True \<rparr>"

definition example_parseInt :: "string \<Rightarrow> int option" where
  "example_parseInt v = (if v = ''20'' then Some 20 else if v = ''5'' then Some 5 else None)"

definition example_parseFloat :: "string \<Rightarrow> real option" where
  "example_parseFloat v = (if v = ''20'' then Some 20 else if v = ''0'' then Some 0 else None)"

text \<open>
  The main thread with an empty mirrored world, and the puts of a short run in which
  the second put hits the start that the first one set.
\<close>

definition example_mirror :: "nat Main" where
  "example_mirror = example_idle\<lparr>WORLD_MAP := example_world\<rparr>"

definition example_run_puts :: "Put list" where
  "example_run_puts = [(START, 1, 2), (PATH, 1, 2), (CALCULATING, 3, 4), (WALL, 0, 0), (PATH, 30, 0)]"

section \<open>JavaScript Map operations\<close>

lemma Map_get_new [simp]: "Map_get Map_new k = None"
  by (simp add: Map_get_def Map_new_def)

lemma Map_has_get: "Map_has m k = (Map_get m k \<noteq> None)"
  by (simp add: Map_has_def Map_get_def)

lemma Map_get_set [simp]: "Map_get (Map_set m k v) k' = (if k' = k then Some v else Map_get m k')"
  by (simp add: Map_get_def Map_set_def)

lemma Map_get_modify [simp]:
  "Map_get (Map_modify m k f) k' = (if k' = k then map_option f (Map_get m k) else Map_get m k')"
  by (simp add: Map_get_def Map_modify_def DAList.lookup.rep_eq DAList.map_entry.rep_eq
      map_of_map_entry split: option.splits)

section \<open>Reading and writing a cell\<close>

lemma getCell_stored:
  "getCell this x y =
     (if hasBoundary this \<and> outOfBounds this x y then WALL
      else case stored this x y of Some c \<Rightarrow> c | None \<Rightarrow> EMPTY)"
  by (auto simp: getCell_def stored_def outOfBounds_def Map_has_get split: option.splits)

lemma putCell_rejected:
  "PERMANENT_CELL_TYPES (getCell this x y) \<Longrightarrow> putCell this cell x y = (getCell this x y, this)"
  by (simp add: putCell_def)

lemma putCell_fst:
  "fst (putCell this cell x y) =
     (if PERMANENT_CELL_TYPES (getCell this x y) then getCell this x y else cell)"
  by (simp add: putCell_def Let_def)

lemma putCell_size [simp]: "size' (snd (putCell this cell x y)) = size' this"
  by (simp add: putCell_def Let_def)

lemma putCell_hasBoundary [simp]: "hasBoundary (snd (putCell this cell x y)) = hasBoundary this"
  by (simp add: putCell_def Let_def)

lemma putCell_stored:
  "stored (snd (putCell this cell x y)) x' y' =
     (if PERMANENT_CELL_TYPES (getCell this x y) then stored this x' y'
      else if x' = x \<and> y' = y then Some cell else stored this x' y')"
  by (auto simp: putCell_def Let_def stored_def Map_has_get split: option.splits)

lemma outOfBounds_putCell [simp]:
  "outOfBounds (snd (putCell this cell x y)) x' y' = outOfBounds this x' y'"
  by (simp add: outOfBounds_def)

lemma putCell_keeps_permanent:
  assumes "PERMANENT_CELL_TYPES (getCell this x y)"
  shows "getCell (snd (putCell this cell x' y')) x y = getCell this x y"
    and "stored (snd (putCell this cell x' y')) x y = stored this x y"
proof -
  show st: "stored (snd (putCell this cell x' y')) x y = stored this x y"
    using assms by (auto simp: putCell_stored)
  show "getCell (snd (putCell this cell x' y')) x y = getCell this x y"
    by (simp add: getCell_stored st)
qed

lemma hollowRect_via_invariant:
  assumes step: "\<And>s c a b. I s \<Longrightarrow> I (snd (put s c a b))"
    and init: "I this"
  shows "I (hollowRect_via put this cell x y w h)"
  unfolding hollowRect_via_def
proof (rule fold_invariant [where Q = "\<lambda>_. True" and P = I])
  show "I this" by (rule init)
next
  fix relX s
  assume s: "I s"
  have col: "I (fold (\<lambda>relY s'. snd (put s' cell (x + relX) (y + relY))) [0..h - 1] s)"
    by (rule fold_invariant [where Q = "\<lambda>_. True" and P = I]) (simp_all add: s step)
  show "I (if relX = 0 \<or> relX = w - 1
           then fold (\<lambda>relY s'. snd (put s' cell (x + relX) (y + relY))) [0..h - 1] s
           else snd (put (snd (put s cell (x + relX) y)) cell (x + relX) (y + h - 1)))"
    using col s by (simp add: step)
qed simp

lemma apply_write_keeps_permanent:
  assumes "PERMANENT_CELL_TYPES g"
    and "getCell this x y = g \<and> stored this x y = st"
  shows "getCell (apply_write this wr) x y = g \<and> stored (apply_write this wr) x y = st"
proof (cases wr)
  case (PutCell c a b)
  then show ?thesis using assms by (simp add: putCell_keeps_permanent)
next
  case (HollowRect c a b w h)
  have "getCell (hollowRect_via putCell this c a b w h) x y = g \<and>
        stored (hollowRect_via putCell this c a b w h) x y = st"
    by (rule hollowRect_via_invariant
          [where I = "\<lambda>s. getCell s x y = g \<and> stored s x y = st"])
       (use assms in \<open>auto simp: putCell_keeps_permanent\<close>)
  then show ?thesis using HollowRect by (simp add: hollowRect_def)
qed

lemma apply_writes_keeps_permanent:
  assumes "PERMANENT_CELL_TYPES g"
    and "getCell this x y = g \<and> stored this x y = st"
  shows "getCell (apply_writes this ws) x y = g \<and> stored (apply_writes this ws) x y = st"
  unfolding apply_writes_def
  by (rule fold_invariant [where Q = "\<lambda>_. True"
        and P = "\<lambda>s. getCell s x y = g \<and> stored s x y = st"])
     (use assms in \<open>simp_all add: apply_write_keeps_permanent\<close>)

lemma puts_size [simp]: "size' (puts this ps) = size' this"
  unfolding puts_def by (induction ps arbitrary: this) (auto simp: split_def)

lemma puts_hasBoundary [simp]: "hasBoundary (puts this ps) = hasBoundary this"
  unfolding puts_def by (induction ps arbitrary: this) (auto simp: split_def)

lemma puts_Nil [simp]: "puts this [] = this"
  by (simp add: puts_def)

lemma puts_Cons [simp]: "puts this ((c, x, y) # ps) = puts (snd (putCell this c x y)) ps"
  by (simp add: puts_def)

lemma puts_out_of_bounds_not_stored:
  assumes "hasBoundary this" and "outOfBounds this x y" and "stored this x y = None"
  shows "stored (puts this ps) x y = None"
  using assms
proof (induction ps arbitrary: this)
  case Nil
  then show ?case by simp
next
  case (Cons p ps)
  obtain c a b where p: "p = (c, a, b)" by (cases p)
  have wall: "getCell this x y = WALL"
    using Cons.prems by (simp add: getCell_stored)
  have "stored (snd (putCell this c a b)) x y = None"
    using Cons.prems wall by (auto simp: putCell_stored PERMANENT_CELL_TYPES_def)
  then show ?case
    using Cons.IH [of "snd (putCell this c a b)"] Cons.prems p by simp
qed

lemma clearMap_fields [simp]:
  "size' (clearMap this) = size' this"
  "hasBoundary (clearMap this) = hasBoundary this"
  "map' (clearMap this) = Map_new"
  by (simp_all add: clearMap_def)

lemma stored_clearMap [simp]: "stored (clearMap this) x y = None"
  by (simp add: stored_def)

lemma outOfBounds_clearMap [simp]: "outOfBounds (clearMap this) x y = outOfBounds this x y"
  by (simp add: outOfBounds_def)

section \<open>Properties of the grid map\<close>

text \<open>
  C1. Where the cell at \<open>(x, y)\<close> reads as a permanent type (wall, start or goal),
  \<^verbatim>\<open>putCell\<close> with any cell type returns the existing type and leaves the map as it is;
  and after any sequence of writes, whether calls of \<^verbatim>\<open>putCell\<close> or of \<^verbatim>\<open>hollowRect\<close>
  at any coordinates, the cell at \<open>(x, y)\<close> still reads as before and the store still
  holds the same entry there.
\<close>

theorem permanent_cell_never_changes:
  assumes "PERMANENT_CELL_TYPES (getCell this x y)"
  shows "putCell this cell x y = (getCell this x y, this) \<and>
         (\<forall>ws. getCell (apply_writes this ws) x y = getCell this x y \<and>
               stored (apply_writes this ws) x y = stored this x y)"
  using assms putCell_rejected [of this x y cell]
    apply_writes_keeps_permanent [of "getCell this x y" this x y "stored this x y"]
  by simp

text \<open>
  C2. \<^verbatim>\<open>getCell\<close> has a value at every pair of integers and no error branch: on a map
  with a boundary it is a wall at every coordinate out of bounds; everywhere else it is
  the stored state where one is set, and empty where none is.
\<close>

theorem getCell_total:
  "getCell this x y =
     (if hasBoundary this \<and> outOfBounds this x y then WALL
      else case stored this x y of Some c \<Rightarrow> c | None \<Rightarrow> EMPTY)"
  by (rule getCell_stored)

text \<open>
  C10. On a map with a boundary, at a coordinate out of bounds, \<^verbatim>\<open>getCell\<close> gives a
  wall, and \<^verbatim>\<open>putCell\<close> with any cell type returns a wall and leaves the map as it is;
  so starting from a cleared map no sequence of puts records anything there.
\<close>

theorem putCell_out_of_bounds:
  assumes "hasBoundary this" and "outOfBounds this x y"
  shows "getCell this x y = WALL \<and> putCell this cell x y = (WALL, this) \<and>
         (\<forall>ps. stored (puts (clearMap this) ps) x y = None)"
proof -
  have wall: "getCell this x y = WALL"
    using assms by (simp add: getCell_stored)
  have "putCell this cell x y = (WALL, this)"
    using putCell_rejected [of this x y cell] wall by (simp add: PERMANENT_CELL_TYPES_def)
  moreover have "stored (puts (clearMap this) ps) x y = None" for ps
    by (rule puts_out_of_bounds_not_stored) (use assms in simp_all)
  ultimately show ?thesis using wall by simp
qed

section \<open>The properties at concrete inputs\<close>

lemma example_map_reads:
  "getCell example_map 1 2 = START" "getCell example_map 3 4 = CALCULATING"
  "getCell example_map 0 0 = EMPTY" "getCell example_map (- 1) 0 = WALL"
  "stored example_map 1 2 = Some START" "stored example_map 3 4 = Some CALCULATING"
  "stored example_map 0 0 = None" "stored example_map (- 1) 0 = None"
  by code_simp+

lemma example_map_bounds:
  "hasBoundary example_map" "outOfBounds example_map (- 1) 0"
  "\<not> outOfBounds example_map 1 2" "\<not> outOfBounds example_map 0 0"
  "\<not> outOfBounds example_map 3 4"
  by code_simp+

theorem permanent_cell_never_changes_witness:
  "PERMANENT_CELL_TYPES (getCell example_map 1 2) \<and>
   putCell example_map PATH 1 2 = (START, example_map) \<and>
   getCell (apply_writes example_map [PutCell PATH 1 2, HollowRect CALCULATED 0 0 4 4]) 1 2 = START \<and>
   stored (apply_writes example_map [PutCell PATH 1 2, HollowRect CALCULATED 0 0 4 4]) 1 2 = Some START"
proof -
  have p: "PERMANENT_CELL_TYPES (getCell example_map 1 2)"
    by (simp add: example_map_reads PERMANENT_CELL_TYPES_def)
  note T = permanent_cell_never_changes [OF p, of PATH]
  from T have "putCell example_map PATH 1 2 = (START, example_map)"
    by (simp add: example_map_reads)
  moreover from T have
    "getCell (apply_writes example_map [PutCell PATH 1 2, HollowRect CALCULATED 0 0 4 4]) 1 2 = START \<and>
     stored (apply_writes example_map [PutCell PATH 1 2, HollowRect CALCULATED 0 0 4 4]) 1 2 = Some START"
    by (simp add: example_map_reads)
  ultimately show ?thesis using p by simp
qed

theorem getCell_total_witness:
  "getCell example_map (- 1) 0 = WALL \<and> getCell example_map 1 2 = START \<and>
   getCell example_map 3 4 = CALCULATING \<and> getCell example_map 0 0 = EMPTY"
  using getCell_total [of example_map "- 1" 0] getCell_total [of example_map 1 2]
    getCell_total [of example_map 3 4] getCell_total [of example_map 0 0]
  by (simp add: example_map_reads(5-8) example_map_bounds)

theorem putCell_out_of_bounds_witness:
  "hasBoundary example_map \<and> outOfBounds example_map (- 1) 0 \<and>
   getCell example_map (- 1) 0 = WALL \<and>
   putCell example_map PATH (- 1) 0 = (WALL, example_map) \<and>
   stored (puts (clearMap example_map) [(PATH, - 1, 0), (START, 1, 1)]) (- 1) 0 = None"
proof -
  note T = putCell_out_of_bounds [of example_map "- 1" 0 PATH, OF example_map_bounds(1,2)]
  from T have "stored (puts (clearMap example_map) [(PATH, - 1, 0), (START, 1, 1)]) (- 1) 0 = None"
    by blast
  with T show ?thesis by (simp add: example_map_bounds)
qed

section \<open>Neighbours\<close>

lemma getNeighbours_diagonals:
  "getNeighbours this x y True = getNeighbours this x y False @ getNeighbours this x y False"
  by (simp add: getNeighbours_def Let_def)

text \<open>
  C5. With diagonals requested on an empty world without boundary, the neighbours of
  \<open>(5, 5)\<close> that the code returns are the four orthogonal neighbours in the order
  (+x, -x, +y, -y) followed by the same four again; no diagonal neighbour, such as
  \<open>(6, 6)\<close>, is among them.
\<close>

theorem getNeighbours_diagonals_are_orthogonals:
  "getNeighbours example_unbounded 5 5 True =
     [(6, 5), (4, 5), (5, 6), (5, 4), (6, 5), (4, 5), (5, 6), (5, 4)] \<and>
   (6, 6) \<notin> set (getNeighbours example_unbounded 5 5 True) \<and>
   getNeighbours example_unbounded 5 5 False = [(6, 5), (4, 5), (5, 6), (5, 4)]"
  by code_simp

section \<open>The lock of the main thread\<close>

lemma generatePath_locked: "isPathGenLocked s \<Longrightarrow> generatePath s = s"
  by (simp add: generatePath_def)

lemma onMessage_keeps_requests:
  "onMessage s msg = Some s' \<Longrightarrow> pathGenerator s' = pathGenerator s"
  by (cases msg) (auto simp: onMessage_def split: if_splits option.splits)

lemma onMessage_keeps_lock:
  assumes "onMessage s msg = Some s'" and "isPathGenLocked s" and "fst msg \<noteq> ''unlock_gen''"
  shows "isPathGenLocked s'"
  using assms by (cases msg) (auto simp: onMessage_def split: if_splits option.splits)

lemma main_events_locked:
  assumes "isPathGenLocked s"
    and "\<forall>ev\<in>set evs. \<forall>args. ev \<noteq> WorkerMessage (''unlock_gen'', args)"
    and "main_events s evs = Some s'"
  shows "pathGenerator s' = pathGenerator s \<and> isPathGenLocked s'"
  using assms
proof (induction evs arbitrary: s)
  case Nil
  then show ?case by simp
next
  case (Cons ev evs)
  from Cons.prems(3) obtain s1 where s1: "main_event s ev = Some s1"
    and rest: "main_events s1 evs = Some s'"
    by (auto split: option.splits)
  have step: "pathGenerator s1 = pathGenerator s \<and> isPathGenLocked s1"
  proof (cases ev)
    case RestartKey
    then show ?thesis using s1 Cons.prems(1) by (auto simp: generatePath_locked)
  next
    case (WorkerMessage msg)
    then have om: "onMessage s msg = Some s1" using s1 by simp
    have "fst msg \<noteq> ''unlock_gen''"
      using Cons.prems(2) WorkerMessage by (cases msg) auto
    then show ?thesis
      using om Cons.prems(1) onMessage_keeps_requests onMessage_keeps_lock by blast
  qed
  have "pathGenerator s' = pathGenerator s1 \<and> isPathGenLocked s'"
    using Cons.IH [of s1] step Cons.prems(2) rest by simp
  then show ?case using step by simp
qed

text \<open>
  C7. While the main thread is locked, \<^verbatim>\<open>generatePath\<close> leaves every global as it is and
  posts nothing to the worker. So from a locked state, whatever is pressed and whatever
  the worker sends short of the unlock, no start request is posted and the lock stays.
\<close>

theorem start_while_locked_is_dropped:
  assumes "isPathGenLocked s"
  shows "generatePath s = s \<and>
         (\<forall>evs s'. (\<forall>ev\<in>set evs. \<forall>args. ev \<noteq> WorkerMessage (''unlock_gen'', args)) \<and>
                   main_events s evs = Some s' \<longrightarrow>
                   pathGenerator s' = pathGenerator s \<and> isPathGenLocked s')"
  using assms generatePath_locked [of s] main_events_locked [of s] by blast

theorem start_while_locked_is_dropped_witness:
  "isPathGenLocked example_locked \<and> generatePath example_locked = example_locked \<and>
   map_option pathGenerator
     (main_events example_locked
        [RestartKey, WorkerMessage (''map_add_cells'', [Cell PATH, Num 2, Num 2]), RestartKey]) =
     Some (pathGenerator example_locked) \<and>
   map_option isPathGenLocked
     (main_events example_locked
        [RestartKey, WorkerMessage (''map_add_cells'', [Cell PATH, Num 2, Num 2]), RestartKey]) =
     Some True"
proof -
  let ?evs = "[RestartKey, WorkerMessage (''map_add_cells'', [Cell PATH, Num 2, Num 2]), RestartKey]"
  have l: "isPathGenLocked example_locked"
    by (simp add: example_locked_def)
  have "main_events example_locked ?evs \<noteq> None"
    by code_simp
  then obtain s' where s': "main_events example_locked ?evs = Some s'"
    by auto
  have ok: "\<forall>ev\<in>set ?evs. \<forall>args. ev \<noteq> WorkerMessage (''unlock_gen'', args)"
    by simp
  note T = start_while_locked_is_dropped [OF l]
  from T ok s' have "pathGenerator s' = pathGenerator example_locked \<and> isPathGenLocked s'"
    by blast
  with T l s' show ?thesis by simp
qed

section \<open>Reconfiguration\<close>

lemma changeWorldSize_cases:
  "snd (changeWorldSize parseInt element axis s) =
     (case parseInt (el_value element) of
        None \<Rightarrow> s
      | Some v \<Rightarrow>
          if isPathGenLocked s \<or> v < MIN_WORLD_SIZE \<or> MAX_WORLD_SIZE < v then s
          else s\<lparr>WORLD_MAP :=
                   (case axis of
                      AxisX \<Rightarrow> (clearMap (WORLD_MAP s))\<lparr>size' := (v, snd (size' (WORLD_MAP s)))\<rparr>
                    | AxisY \<Rightarrow> (clearMap (WORLD_MAP s))\<lparr>size' := (fst (size' (WORLD_MAP s)), v)\<rparr>)\<rparr>)"
  by (simp add: changeWorldSize_def Let_def split: option.splits Axis.splits)

lemma changeActionDelay_WORLD_MAP [simp]:
  "WORLD_MAP (snd (changeActionDelay parseFloat element noDelayPH s)) = WORLD_MAP s"
  by (simp add: changeActionDelay_def Let_def split: option.splits)

lemma changeActionDelay_actionDelay:
  "actionDelay (snd (changeActionDelay parseFloat element noDelayPH s)) =
     (case parseFloat (el_value element) of
        None \<Rightarrow> actionDelay s
      | Some d \<Rightarrow>
          if isPathGenLocked s \<or> MAX_ACTION_TIME < d then actionDelay s
          else if d \<le> 0 then None else Some d)"
  by (simp add: changeActionDelay_def Let_def split: option.splits)

lemma changeWorldSize_actionDelay [simp]:
  "actionDelay (snd (changeWorldSize parseInt element axis s)) = actionDelay s"
  by (simp add: changeWorldSize_cases split: option.splits)

text \<open>
  C9. While the main thread is locked, a change of the world size and a change of the
  action delay leave the world (its size and its stored cells) and the action delay
  as they are. The world changes only if the main thread is unlocked and the parsed
  size lies between \<^verbatim>\<open>MIN_WORLD_SIZE\<close> and \<^verbatim>\<open>MAX_WORLD_SIZE\<close>, and the delay changes
  only if the main thread is unlocked and the parsed delay is a number of at most
  \<^verbatim>\<open>MAX_ACTION_TIME\<close>; in those cases the world is cleared and gets the new size on
  the given axis, and the delay becomes the parsed one, or none if that is not positive.
\<close>

theorem reconfiguration_gated_by_lock:
  "(isPathGenLocked s \<longrightarrow>
      WORLD_MAP (snd (changeWorldSize parseInt element axis s)) = WORLD_MAP s \<and>
      actionDelay (snd (changeWorldSize parseInt element axis s)) = actionDelay s \<and>
      WORLD_MAP (snd (changeActionDelay parseFloat element noDelayPH s)) = WORLD_MAP s \<and>
      actionDelay (snd (changeActionDelay parseFloat element noDelayPH s)) = actionDelay s) \<and>
   (WORLD_MAP (snd (changeWorldSize parseInt element axis s)) \<noteq> WORLD_MAP s \<longrightarrow>
      \<not> isPathGenLocked s \<and>
      (\<exists>v. parseInt (el_value element) = Some v \<and> MIN_WORLD_SIZE \<le> v \<and> v \<le> MAX_WORLD_SIZE)) \<and>
   (actionDelay (snd (changeActionDelay parseFloat element noDelayPH s)) \<noteq> actionDelay s \<longrightarrow>
      \<not> isPathGenLocked s \<and>
      (\<exists>d. parseFloat (el_value element) = Some d \<and> d \<le> MAX_ACTION_TIME)) \<and>
   (\<forall>v. \<not> isPathGenLocked s \<and> parseInt (el_value element) = Some v \<and>
        MIN_WORLD_SIZE \<le> v \<and> v \<le> MAX_WORLD_SIZE \<longrightarrow>
        map' (WORLD_MAP (snd (changeWorldSize parseInt element axis s))) = Map_new \<and>
        size' (WORLD_MAP (snd (changeWorldSize parseInt element axis s))) =
          (case axis of AxisX \<Rightarrow> (v, snd (size' (WORLD_MAP s)))
                      | AxisY \<Rightarrow> (fst (size' (WORLD_MAP s)), v))) \<and>
   (\<forall>d. \<not> isPathGenLocked s \<and> parseFloat (el_value element) = Some d \<and>
        d \<le> MAX_ACTION_TIME \<longrightarrow>
        actionDelay (snd (changeActionDelay parseFloat element noDelayPH s)) =
          (if d \<le> 0 then None else Some d))"
proof -
  have size: "WORLD_MAP (snd (changeWorldSize parseInt element axis s)) \<noteq> WORLD_MAP s \<Longrightarrow>
      \<not> isPathGenLocked s \<and>
      (\<exists>v. parseInt (el_value element) = Some v \<and> MIN_WORLD_SIZE \<le> v \<and> v \<le> MAX_WORLD_SIZE)"
    by (auto simp: changeWorldSize_cases split: option.splits if_splits)
  have delay: "actionDelay (snd (changeActionDelay parseFloat element noDelayPH s)) \<noteq> actionDelay s \<Longrightarrow>
      \<not> isPathGenLocked s \<and>
      (\<exists>d. parseFloat (el_value element) = Some d \<and> d \<le> MAX_ACTION_TIME)"
    by (auto simp: changeActionDelay_actionDelay split: option.splits if_splits)
  have size_ok: "map' (WORLD_MAP (snd (changeWorldSize parseInt element axis s))) = Map_new \<and>
        size' (WORLD_MAP (snd (changeWorldSize parseInt element axis s))) =
          (case axis of AxisX \<Rightarrow> (v, snd (size' (WORLD_MAP s)))
                      | AxisY \<Rightarrow> (fst (size' (WORLD_MAP s)), v))"
    if "\<not> isPathGenLocked s" "parseInt (el_value element) = Some v"
      "MIN_WORLD_SIZE \<le> v" "v \<le> MAX_WORLD_SIZE" for v
    using that by (cases axis) (simp_all add: changeWorldSize_cases)
  have delay_ok: "actionDelay (snd (changeActionDelay parseFloat element noDelayPH s)) =
          (if d \<le> 0 then None else Some d)"
    if "\<not> isPathGenLocked s" "parseFloat (el_value element) = Some d" "d \<le> MAX_ACTION_TIME" for d
    using that by (simp add: changeActionDelay_actionDelay)
  show ?thesis
    using size delay size_ok delay_ok by (intro conjI impI allI) auto
qed

theorem reconfiguration_gated_by_lock_witness:
  "isPathGenLocked example_locked \<and>
   WORLD_MAP (snd (changeWorldSize example_parseInt (example_element ''20'') AxisX example_locked)) =
     WORLD_MAP example_locked \<and>
   actionDelay (snd (changeActionDelay example_parseFloat (example_element ''20'') ''none''
     example_locked)) = actionDelay example_locked \<and>
   \<not> isPathGenLocked example_idle \<and>
   map' (WORLD_MAP (snd (changeWorldSize example_parseInt (example_element ''20'') AxisX
     example_idle))) = Map_new \<and>
   size' (WORLD_MAP (snd (changeWorldSize example_parseInt (example_element ''20'') AxisX
     example_idle))) = (20, 15) \<and>
   actionDelay (snd (changeActionDelay example_parseFloat (example_element ''20'') ''none''
     example_idle)) = Some 20 \<and>
   actionDelay (snd (changeActionDelay example_parseFloat (example_element ''0'') ''none''
     example_idle)) = None \<and> actionDelay example_idle = Some 25"
proof -
  note L = reconfiguration_gated_by_lock [where s = example_locked and parseInt = example_parseInt
      and parseFloat = example_parseFloat and element = "example_element ''20''" and axis = AxisX
      and noDelayPH = "''none''"]
  note I = reconfiguration_gated_by_lock [where s = example_idle and parseInt = example_parseInt
      and parseFloat = example_parseFloat and element = "example_element ''20''" and axis = AxisX
      and noDelayPH = "''none''"]
  note Z = reconfiguration_gated_by_lock [where s = example_idle and parseInt = example_parseInt
      and parseFloat = example_parseFloat and element = "example_element ''0''" and axis = AxisX
      and noDelayPH = "''none''"]
  have locked: "isPathGenLocked example_locked" "\<not> isPathGenLocked example_idle"
    by (simp_all add: example_locked_def example_idle_def)
  have parsed: "example_parseInt (el_value (example_element ''20'')) = Some 20"
    "example_parseFloat (el_value (example_element ''20'')) = Some 20"
    "example_parseFloat (el_value (example_element ''0'')) = Some 0"
    by (simp_all add: example_parseInt_def example_parseFloat_def example_element_def)
  have range: "MIN_WORLD_SIZE \<le> 20" "20 \<le> MAX_WORLD_SIZE" "20 \<le> MAX_ACTION_TIME"
    "0 \<le> MAX_ACTION_TIME"
    by (simp_all add: MIN_WORLD_SIZE_def MAX_WORLD_SIZE_def MAX_ACTION_TIME_def)
  have before: "size' (WORLD_MAP example_idle) = (30, 15)" "actionDelay example_idle = Some 25"
    by (simp_all add: example_idle_def example_map_def example_world_def new_WorldMap_def)
  from L locked have A:
    "WORLD_MAP (snd (changeWorldSize example_parseInt (example_element ''20'') AxisX example_locked)) =
       WORLD_MAP example_locked \<and>
     actionDelay (snd (changeActionDelay example_parseFloat (example_element ''20'') ''none''
       example_locked)) = actionDelay example_locked"
    by blast
  from I locked parsed range before have B:
    "map' (WORLD_MAP (snd (changeWorldSize example_parseInt (example_element ''20'') AxisX
       example_idle))) = Map_new \<and>
     size' (WORLD_MAP (snd (changeWorldSize example_parseInt (example_element ''20'') AxisX
       example_idle))) = (20, 15) \<and>
     actionDelay (snd (changeActionDelay example_parseFloat (example_element ''20'') ''none''
       example_idle)) = Some 20"
    by simp
  from Z locked parsed range have C:
    "actionDelay (snd (changeActionDelay example_parseFloat (example_element ''0'') ''none''
       example_idle)) = None"
    by simp
  from A B C locked before show ?thesis by simp
qed

section \<open>The worker's map: what a put posts and queues\<close>

lemma putCell_worker_fields [simp]:
  "workerGlobal (snd (putCell this cell x y)) = workerGlobal this"
  "cellQueue (snd (putCell this cell x y)) = cellQueue this"
  "alwaysUpdate (snd (putCell this cell x y)) = alwaysUpdate this"
  "maxCellQueue (snd (putCell this cell x y)) = maxCellQueue this"
  by (simp_all add: putCell_def Let_def)

lemma WorkerWorldMap_putCell_fst:
  "fst (WorkerWorldMap_putCell this cellType x y) = fst (putCell this cellType x y)"
  by (simp add: WorkerWorldMap_putCell_def Let_def split_def)

lemma WorkerWorldMap_putCell_grid:
  "WorldMap.truncate (snd (WorkerWorldMap_putCell this cellType x y)) =
     WorldMap.truncate (snd (putCell this cellType x y))"
  by (simp add: WorkerWorldMap_putCell_def Let_def split_def sendCellQueue_def postMessage_def
      WorldMap.truncate_def)

lemma WorkerWorldMap_putCell_posted:
  "workerGlobal (snd (WorkerWorldMap_putCell this cellType x y)) =
     workerGlobal this @
       (if alwaysUpdate this then [(''map_add_cells'', [Cell cellType, Num x, Num y])]
        else if maxCellQueue this \<le> int (length (cellQueue this)) + 3
        then [(''map_add_cells'', cellQueue this @ [Cell cellType, Num x, Num y])]
        else [])"
  by (simp add: WorkerWorldMap_putCell_def Let_def split_def sendCellQueue_def postMessage_def)

lemma WorkerWorldMap_putCell_queue:
  "cellQueue (snd (WorkerWorldMap_putCell this cellType x y)) =
     (if alwaysUpdate this then cellQueue this
      else if maxCellQueue this \<le> int (length (cellQueue this)) + 3 then []
      else cellQueue this @ [Cell cellType, Num x, Num y])"
  by (simp add: WorkerWorldMap_putCell_def Let_def split_def sendCellQueue_def postMessage_def)

lemma WorkerWorldMap_putCell_mode [simp]:
  "alwaysUpdate (snd (WorkerWorldMap_putCell this cellType x y)) = alwaysUpdate this"
  "maxCellQueue (snd (WorkerWorldMap_putCell this cellType x y)) = maxCellQueue this"
  by (simp_all add: WorkerWorldMap_putCell_def Let_def split_def sendCellQueue_def
      postMessage_def)

lemma WorkerWorldMap_putCell_same_grid:
  "same_grid (snd (WorkerWorldMap_putCell m c x y)) (snd (putCell m c x y))"
  by (simp add: same_grid_def WorkerWorldMap_putCell_def Let_def split_def sendCellQueue_def
      postMessage_def)

text \<open>
  C4, as the code has it. A put on the worker's map at a cell that reads as permanent
  is rejected by the map: the existing type is returned and the fields of the world
  map stay as they are. The put is reported all the same, like any other put: in
  always-update mode a message with the one triple is posted; otherwise the triple is
  appended to the cell queue, which then either stays pending or is posted whole, the
  triple last, and emptied.
\<close>

theorem rejected_put_is_still_reported:
  assumes "PERMANENT_CELL_TYPES (getCell this x y)"
  shows "fst (WorkerWorldMap_putCell this cellType x y) = getCell this x y \<and>
         map' (snd (WorkerWorldMap_putCell this cellType x y)) = map' this \<and>
         WorldMap.truncate (snd (WorkerWorldMap_putCell this cellType x y)) =
           WorldMap.truncate this \<and>
         (if alwaysUpdate this
          then workerGlobal (snd (WorkerWorldMap_putCell this cellType x y)) =
                 workerGlobal this @ [(''map_add_cells'', [Cell cellType, Num x, Num y])] \<and>
               cellQueue (snd (WorkerWorldMap_putCell this cellType x y)) = cellQueue this
          else (workerGlobal (snd (WorkerWorldMap_putCell this cellType x y)) = workerGlobal this \<and>
                cellQueue (snd (WorkerWorldMap_putCell this cellType x y)) =
                  cellQueue this @ [Cell cellType, Num x, Num y]) \<or>
               (workerGlobal (snd (WorkerWorldMap_putCell this cellType x y)) =
                  workerGlobal this @
                    [(''map_add_cells'', cellQueue this @ [Cell cellType, Num x, Num y])] \<and>
                cellQueue (snd (WorkerWorldMap_putCell this cellType x y)) = []))"
proof -
  have same: "same_grid (snd (WorkerWorldMap_putCell this cellType x y)) this"
    using assms putCell_rejected [of this x y cellType]
      WorkerWorldMap_putCell_same_grid [of this cellType x y] by simp
  show ?thesis
    using assms putCell_rejected [of this x y cellType] same
    by (simp add: WorkerWorldMap_putCell_fst WorkerWorldMap_putCell_grid
        WorkerWorldMap_putCell_posted WorkerWorldMap_putCell_queue same_grid_def)
qed

lemma example_worker_state:
  "getCell example_worker 1 2 = START" "alwaysUpdate example_worker = False"
  "maxCellQueue example_worker = 50" "cellQueue example_worker = [Cell START, Num 1, Num 2]"
  "workerGlobal example_worker = []"
  "getCell example_worker_always 1 2 = START" "alwaysUpdate example_worker_always = True"
  "cellQueue example_worker_always = []"
  "workerGlobal example_worker_always = [(''map_add_cells'', [Cell START, Num 1, Num 2])]"
  by code_simp+

text \<open>
  The claim C4 at a concrete input: the cell at \<open>(1, 2)\<close> holds a start, a put of a
  path cell there is rejected, and yet its triple is appended to the cell queue, and in
  always-update mode a message with it is posted.
\<close>

theorem rejected_put_no_event_counterexample:
  "PERMANENT_CELL_TYPES (getCell example_worker 1 2) \<and>
   fst (WorkerWorldMap_putCell example_worker PATH 1 2) = START \<and>
   cellQueue (snd (WorkerWorldMap_putCell example_worker PATH 1 2)) =
     cellQueue example_worker @ [Cell PATH, Num 1, Num 2] \<and>
   cellQueue (snd (WorkerWorldMap_putCell example_worker PATH 1 2)) \<noteq> cellQueue example_worker \<and>
   PERMANENT_CELL_TYPES (getCell example_worker_always 1 2) \<and>
   fst (WorkerWorldMap_putCell example_worker_always PATH 1 2) = START \<and>
   workerGlobal (snd (WorkerWorldMap_putCell example_worker_always PATH 1 2)) =
     workerGlobal example_worker_always @ [(''map_add_cells'', [Cell PATH, Num 1, Num 2])] \<and>
   workerGlobal (snd (WorkerWorldMap_putCell example_worker_always PATH 1 2)) \<noteq>
     workerGlobal example_worker_always"
  by (simp add: WorkerWorldMap_putCell_fst WorkerWorldMap_putCell_posted
      WorkerWorldMap_putCell_queue putCell_fst example_worker_state PERMANENT_CELL_TYPES_def)

theorem rejected_put_is_still_reported_witness:
  "PERMANENT_CELL_TYPES (getCell example_worker 1 2) \<and>
   fst (WorkerWorldMap_putCell example_worker PATH 1 2) = START \<and>
   map' (snd (WorkerWorldMap_putCell example_worker PATH 1 2)) = map' example_worker \<and>
   WorldMap.truncate (snd (WorkerWorldMap_putCell example_worker PATH 1 2)) =
     WorldMap.truncate example_worker \<and>
   workerGlobal (snd (WorkerWorldMap_putCell example_worker PATH 1 2)) = [] \<and>
   cellQueue (snd (WorkerWorldMap_putCell example_worker PATH 1 2)) =
     [Cell START, Num 1, Num 2, Cell PATH, Num 1, Num 2] \<and>
   PERMANENT_CELL_TYPES (getCell example_worker_always 1 2) \<and>
   fst (WorkerWorldMap_putCell example_worker_always PATH 1 2) = START \<and>
   map' (snd (WorkerWorldMap_putCell example_worker_always PATH 1 2)) =
     map' example_worker_always \<and>
   workerGlobal (snd (WorkerWorldMap_putCell example_worker_always PATH 1 2)) =
     [(''map_add_cells'', [Cell START, Num 1, Num 2]),
      (''map_add_cells'', [Cell PATH, Num 1, Num 2])] \<and>
   cellQueue (snd (WorkerWorldMap_putCell example_worker_always PATH 1 2)) = []"
proof -
  have p: "PERMANENT_CELL_TYPES (getCell example_worker 1 2)"
    and q: "PERMANENT_CELL_TYPES (getCell example_worker_always 1 2)"
    by (simp_all add: example_worker_state PERMANENT_CELL_TYPES_def)
  have pending: "workerGlobal (snd (WorkerWorldMap_putCell example_worker PATH 1 2)) = []"
    by (simp add: WorkerWorldMap_putCell_posted example_worker_state)
  note T = rejected_put_is_still_reported [OF p, of PATH]
  note A = rejected_put_is_still_reported [OF q, of PATH]
  from T pending have threshold_mode:
    "fst (WorkerWorldMap_putCell example_worker PATH 1 2) = START \<and>
     map' (snd (WorkerWorldMap_putCell example_worker PATH 1 2)) = map' example_worker \<and>
     WorldMap.truncate (snd (WorkerWorldMap_putCell example_worker PATH 1 2)) =
       WorldMap.truncate example_worker \<and>
     cellQueue (snd (WorkerWorldMap_putCell example_worker PATH 1 2)) =
       [Cell START, Num 1, Num 2, Cell PATH, Num 1, Num 2]"
    by (auto simp: example_worker_state)
  from A have always_mode:
    "fst (WorkerWorldMap_putCell example_worker_always PATH 1 2) = START \<and>
     map' (snd (WorkerWorldMap_putCell example_worker_always PATH 1 2)) =
       map' example_worker_always \<and>
     workerGlobal (snd (WorkerWorldMap_putCell example_worker_always PATH 1 2)) =
       [(''map_add_cells'', [Cell START, Num 1, Num 2]),
        (''map_add_cells'', [Cell PATH, Num 1, Num 2])] \<and>
     cellQueue (snd (WorkerWorldMap_putCell example_worker_always PATH 1 2)) = []"
    by (simp add: example_worker_state)
  from p q pending threshold_mode always_mode show ?thesis by simp
qed

section \<open>Replaying the worker's batches on the main thread\<close>

lemma flat_simps [simp]:
  "flat [] = []"
  "flat ((c, x, y) # ps) = Cell c # Num x # Num y # flat ps"
  "flat (ps @ qs) = flat ps @ flat qs"
  by (simp_all add: flat_def)

lemma length_flat: "length (flat ps) = 3 * length ps"
  by (induction ps) auto

lemma puts_append: "puts this (ps @ qs) = puts (puts this ps) qs"
  by (simp add: puts_def)

lemma map_add_cells_flat: "map_add_cells (flat ps) wm = Some (puts wm ps)"
  by (induction ps arbitrary: wm) auto

lemma deliver_batches:
  "deliver s (map (\<lambda>b. (''map_add_cells'', flat b)) bss) =
     Some (s\<lparr>WORLD_MAP := puts (WORLD_MAP s) (concat bss)\<rparr>)"
proof (induction bss arbitrary: s)
  case Nil
  then show ?case by simp
next
  case (Cons b bss)
  have "onMessage s (''map_add_cells'', flat b) = Some (s\<lparr>WORLD_MAP := puts (WORLD_MAP s) b\<rparr>)"
    by (simp add: onMessage_def map_add_cells_flat)
  then show ?case by (simp add: Cons.IH puts_append)
qed

lemma same_grid_getCell: "same_grid a b \<Longrightarrow> getCell a x y = getCell b x y"
  by (auto simp: same_grid_def getCell_stored stored_def outOfBounds_def)

lemma same_grid_putCell:
  assumes "same_grid a b"
  shows "same_grid (snd (putCell a c x y)) (snd (putCell b c x y))"
proof -
  have "getCell a x y = getCell b x y"
    using assms by (rule same_grid_getCell)
  then show ?thesis
    using assms by (simp add: same_grid_def putCell_def Let_def)
qed

lemma same_grid_puts: "same_grid a b \<Longrightarrow> same_grid (puts a ps) (puts b ps)"
proof (induction ps arbitrary: a b)
  case Nil
  then show ?case by simp
next
  case (Cons p ps)
  obtain c x y where p: "p = (c, x, y)" by (cases p)
  show ?case
    using Cons.IH [OF same_grid_putCell [OF Cons.prems, of c x y]] p by simp
qed

lemma same_grid_trans: "same_grid a b \<Longrightarrow> same_grid b c \<Longrightarrow> same_grid a c"
  by (simp add: same_grid_def)

lemma same_grid_sym: "same_grid a b \<Longrightarrow> same_grid b a"
  by (simp add: same_grid_def)

lemma WorkerWorldMap_puts_same_grid:
  "same_grid m wm \<Longrightarrow> same_grid (WorkerWorldMap_puts m ps) (puts wm ps)"
proof (induction ps arbitrary: m wm)
  case Nil
  then show ?case by (simp add: WorkerWorldMap_puts_def)
next
  case (Cons p ps)
  obtain c x y where p: "p = (c, x, y)" by (cases p)
  have "same_grid (snd (WorkerWorldMap_putCell m c x y)) (snd (putCell wm c x y))"
    using WorkerWorldMap_putCell_same_grid same_grid_putCell [OF Cons.prems] same_grid_trans
    by blast
  from Cons.IH [OF this] show ?case
    using p by (simp add: WorkerWorldMap_puts_def)
qed

lemma cells_added_append [simp]:
  "cells_added (msgs @ msgs') = cells_added msgs @ cells_added msgs'"
  by (simp add: cells_added_def)

lemma reported_putCell:
  assumes "reported m bss qs"
  shows "\<exists>bss' qs'. reported (snd (WorkerWorldMap_putCell m c x y)) bss' qs' \<and>
                    concat bss' @ qs' = concat bss @ qs @ [(c, x, y)]"
proof (cases "alwaysUpdate m")
  case True
  then have "reported (snd (WorkerWorldMap_putCell m c x y)) (bss @ [[(c, x, y)]]) []"
    using assms
    by (simp add: reported_def WorkerWorldMap_putCell_posted WorkerWorldMap_putCell_queue
        cells_added_def)
  moreover have "qs = []" using assms True by (simp add: reported_def)
  ultimately show ?thesis by fastforce
next
  case False
  show ?thesis
  proof (cases "maxCellQueue m \<le> int (length (cellQueue m)) + 3")
    case True
    then have "reported (snd (WorkerWorldMap_putCell m c x y)) (bss @ [qs @ [(c, x, y)]]) []"
      using assms False
      by (simp add: reported_def WorkerWorldMap_putCell_posted WorkerWorldMap_putCell_queue
          cells_added_def)
    then show ?thesis by fastforce
  next
    case no_flush: False
    then have "reported (snd (WorkerWorldMap_putCell m c x y)) bss (qs @ [(c, x, y)])"
      using assms False
      by (simp add: reported_def WorkerWorldMap_putCell_posted WorkerWorldMap_putCell_queue)
    then show ?thesis by fastforce
  qed
qed

lemma reported_puts:
  assumes "reported m bss qs"
  shows "\<exists>bss' qs'. reported (WorkerWorldMap_puts m ps) bss' qs' \<and>
                    concat bss' @ qs' = concat bss @ qs @ ps"
  using assms
proof (induction ps arbitrary: m bss qs)
  case Nil
  then show ?case by (auto simp: WorkerWorldMap_puts_def)
next
  case (Cons p ps)
  obtain c x y where p: "p = (c, x, y)" by (cases p)
  from reported_putCell [OF Cons.prems, of c x y] obtain bss1 qs1
    where r1: "reported (snd (WorkerWorldMap_putCell m c x y)) bss1 qs1"
      and c1: "concat bss1 @ qs1 = concat bss @ qs @ [(c, x, y)]"
    by blast
  from Cons.IH [OF r1] obtain bss' qs'
    where r': "reported (WorkerWorldMap_puts (snd (WorkerWorldMap_putCell m c x y)) ps) bss' qs'"
      and c': "concat bss' @ qs' = concat bss1 @ qs1 @ ps"
    by blast
  have "WorkerWorldMap_puts m (p # ps) =
        WorkerWorldMap_puts (snd (WorkerWorldMap_putCell m c x y)) ps"
    using p by (simp add: WorkerWorldMap_puts_def)
  moreover have "concat bss' @ qs' = concat bss @ qs @ p # ps"
    using c' c1 p by (metis append.assoc append_Cons append_Nil)
  ultimately show ?case using r' by auto
qed

lemma reported_sendCellQueue:
  "reported m bss qs \<Longrightarrow> reported (sendCellQueue m) (bss @ [qs]) []"
  by (simp add: reported_def sendCellQueue_def postMessage_def cells_added_def)

lemma run_reported:
  "\<exists>bss. cells_added (workerGlobal (run w h b au k ps)) =
            map (\<lambda>b. (''map_add_cells'', flat b)) bss \<and> concat bss = ps"
proof -
  let ?m2 = "WorkerWorldMap_clearMap
               (postMessage (new_WorkerWorldMap w h b au k) (''lock_gen'', []))"
  have "reported ?m2 [] []"
    by (simp add: reported_def WorkerWorldMap_clearMap_def postMessage_def clearMap_def
        new_WorkerWorldMap_def new_WorldMap_def WorldMap.extend_def WorkerWorldMap.fields_def
        cells_added_def)
  from reported_puts [OF this, of ps] obtain bss qs
    where r: "reported (WorkerWorldMap_puts ?m2 ps) bss qs" and c: "concat bss @ qs = ps"
    by auto
  have "reported (sendCellQueue (WorkerWorldMap_puts ?m2 ps)) (bss @ [qs]) []"
    using r by (rule reported_sendCellQueue)
  then have "cells_added (workerGlobal (run w h b au k ps)) =
             map (\<lambda>b. (''map_add_cells'', flat b)) (bss @ [qs])"
    by (simp add: run_def Let_def reported_def postMessage_def cells_added_def)
  moreover have "concat (bss @ [qs]) = ps" using c by simp
  ultimately show ?thesis by blast
qed

lemma run_same_grid:
  assumes "map' wm = Map_new" and "size' wm = (w, h)" and "hasBoundary wm = b"
  shows "same_grid (run w h b au k ps) (puts wm ps)"
proof -
  let ?m2 = "WorkerWorldMap_clearMap
               (postMessage (new_WorkerWorldMap w h b au k) (''lock_gen'', []))"
  have "same_grid ?m2 wm"
    using assms
    by (simp add: same_grid_def WorkerWorldMap_clearMap_def postMessage_def clearMap_def
        new_WorkerWorldMap_def new_WorldMap_def WorldMap.extend_def WorkerWorldMap.fields_def)
  then have "same_grid (WorkerWorldMap_puts ?m2 ps) (puts wm ps)"
    by (rule WorkerWorldMap_puts_same_grid)
  moreover have "same_grid (run w h b au k ps) (WorkerWorldMap_puts ?m2 ps)"
    by (simp add: run_def Let_def same_grid_def sendCellQueue_def postMessage_def)
  ultimately show ?thesis by (blast intro: same_grid_trans)
qed

text \<open>
  C6. Take a run of the worker on a map of the given size and boundary flag, in either
  delivery mode and with any maximum cell queue length, whatever the strategy puts.
  Deliver the batches of cells that the run has posted, in the order of posting, to a
  main thread whose mirrored world is empty and has the same size and boundary flag.
  The listener accepts every batch, and afterwards the mirrored world reads the same
  as the worker's map at every coordinate; the two stores are even equal.
\<close>

theorem replay_reproduces_producer_map:
  assumes "map' (WORLD_MAP s) = Map_new" and "size' (WORLD_MAP s) = (w, h)"
    and "hasBoundary (WORLD_MAP s) = b"
  shows "\<exists>s'. deliver s (cells_added (workerGlobal (run w h b au k ps))) = Some s' \<and>
              (\<forall>x y. getCell (WORLD_MAP s') x y = getCell (run w h b au k ps) x y) \<and>
              map' (WORLD_MAP s') = map' (run w h b au k ps)"
proof -
  obtain bss where sent: "cells_added (workerGlobal (run w h b au k ps)) =
      map (\<lambda>b. (''map_add_cells'', flat b)) bss" and all: "concat bss = ps"
    using run_reported by blast
  let ?s' = "s\<lparr>WORLD_MAP := puts (WORLD_MAP s) ps\<rparr>"
  have d: "deliver s (cells_added (workerGlobal (run w h b au k ps))) = Some ?s'"
    using deliver_batches [of s bss] sent all by simp
  have g: "same_grid (run w h b au k ps) (WORLD_MAP ?s')"
    using run_same_grid [OF assms, of au k ps] by simp
  have "getCell (WORLD_MAP ?s') x y = getCell (run w h b au k ps) x y" for x y
    using same_grid_getCell [OF g, of x y] by simp
  moreover have "map' (WORLD_MAP ?s') = map' (run w h b au k ps)"
    using g by (simp add: same_grid_def)
  ultimately show ?thesis using d by blast
qed

theorem replay_reproduces_producer_map_witness:
  "map' (WORLD_MAP example_mirror) = Map_new \<and> size' (WORLD_MAP example_mirror) = (30, 15) \<and>
   hasBoundary (WORLD_MAP example_mirror) = True \<and>
   map_option (\<lambda>s'. getCell (WORLD_MAP s') 1 2)
     (deliver example_mirror (cells_added (workerGlobal (run 30 15 True False 4 example_run_puts)))) =
     Some START \<and>
   getCell (run 30 15 True False 4 example_run_puts) 1 2 = START \<and>
   length (cells_added (workerGlobal (run 30 15 True False 4 example_run_puts))) = 3"
proof -
  have h: "map' (WORLD_MAP example_mirror) = Map_new" "size' (WORLD_MAP example_mirror) = (30, 15)"
    "hasBoundary (WORLD_MAP example_mirror) = True"
    by (simp_all add: example_mirror_def example_world_def new_WorldMap_def)
  have r: "getCell (run 30 15 True False 4 example_run_puts) 1 2 = START"
    "length (cells_added (workerGlobal (run 30 15 True False 4 example_run_puts))) = 3"
    by code_simp+
  from replay_reproduces_producer_map [OF h, of False 4 example_run_puts] obtain s'
    where "deliver example_mirror
             (cells_added (workerGlobal (run 30 15 True False 4 example_run_puts))) = Some s'"
      and "getCell (WORLD_MAP s') 1 2 = getCell (run 30 15 True False 4 example_run_puts) 1 2"
    by blast
  with h r show ?thesis by simp
qed

section \<open>The threshold of the cell queue\<close>

text \<open>
  In threshold mode with a maximum cell queue length \<open>k\<close> of at least one, starting
  with an empty queue, the queue is posted whenever it holds \<open>(k + 2) div 3\<close> puts,
  that is \<open>k / 3\<close> rounded up: three entries are queued for each put, and the length
  that is compared with \<open>k\<close> counts entries.
\<close>

lemma WorkerWorldMap_puts_snoc:
  "WorkerWorldMap_puts m (ps @ [(c, x, y)]) =
     snd (WorkerWorldMap_putCell (WorkerWorldMap_puts m ps) c x y)"
  by (simp add: WorkerWorldMap_puts_def)

lemma WorkerWorldMap_puts_mode [simp]:
  "alwaysUpdate (WorkerWorldMap_puts m ps) = alwaysUpdate m"
  "maxCellQueue (WorkerWorldMap_puts m ps) = maxCellQueue m"
  by (induction ps rule: rev_induct) (auto simp: WorkerWorldMap_puts_snoc WorkerWorldMap_puts_def)

lemma threshold_reached:
  "(k \<le> int (3 * l) + 3) = (nat ((k + 2) div 3) \<le> l + 1)"
proof -
  have "(k \<le> 3 * int l + 3) = ((k + 2) div 3 \<le> int l + 1)"
    by presburger
  then show ?thesis by (simp add: nat_le_iff add.commute)
qed

lemma threshold_positive: "1 \<le> k \<Longrightarrow> 0 < nat ((k + 2) div 3)"
proof -
  assume "1 \<le> k"
  then have "1 \<le> (k + 2) div 3" by presburger
  then show ?thesis by simp
qed

lemma threshold_batches:
  assumes mode: "\<not> alwaysUpdate m" and k: "1 \<le> maxCellQueue m" and empty: "cellQueue m = []"
  shows "\<exists>bss r.
           workerGlobal (WorkerWorldMap_puts m ps) =
             workerGlobal m @ map (\<lambda>b. (''map_add_cells'', flat b)) bss \<and>
           cellQueue (WorkerWorldMap_puts m ps) = flat r \<and>
           concat bss @ r = ps \<and>
           length bss = length ps div nat ((maxCellQueue m + 2) div 3) \<and>
           (\<forall>b\<in>set bss. length b = nat ((maxCellQueue m + 2) div 3)) \<and>
           length r = length ps mod nat ((maxCellQueue m + 2) div 3)"
proof (induction ps rule: rev_induct)
  case Nil
  then show ?case using empty by (simp add: WorkerWorldMap_puts_def)
next
  case (snoc p ps)
  let ?n = "nat ((maxCellQueue m + 2) div 3)"
  let ?m1 = "WorkerWorldMap_puts m ps"
  obtain c x y where p: "p = (c, x, y)" by (cases p)
  have n: "0 < ?n" using k by (rule threshold_positive)
  from snoc obtain bss r where
    posted: "workerGlobal ?m1 = workerGlobal m @ map (\<lambda>b. (''map_add_cells'', flat b)) bss"
    and queue: "cellQueue ?m1 = flat r"
    and all: "concat bss @ r = ps"
    and count: "length bss = length ps div ?n"
    and full: "\<forall>b\<in>set bss. length b = ?n"
    and rest: "length r = length ps mod ?n"
    by blast
  have flush_iff: "(maxCellQueue ?m1 \<le> int (length (cellQueue ?m1)) + 3) = (?n \<le> length r + 1)"
    using threshold_reached [of "maxCellQueue m" "length r"] by (simp add: queue length_flat)
  have r_lt: "length r < ?n" using rest n by simp
  show ?case
  proof (cases "?n \<le> length r + 1")
    case True
    then have eq: "length r + 1 = ?n" using r_lt by simp
    have "workerGlobal (WorkerWorldMap_puts m (ps @ [p])) =
            workerGlobal m @ map (\<lambda>b. (''map_add_cells'', flat b)) (bss @ [r @ [p]])"
      using True flush_iff mode p posted queue
      by (simp add: WorkerWorldMap_puts_snoc WorkerWorldMap_putCell_posted)
    moreover have "cellQueue (WorkerWorldMap_puts m (ps @ [p])) = flat []"
      using True flush_iff mode p
      by (simp add: WorkerWorldMap_puts_snoc WorkerWorldMap_putCell_queue)
    moreover have "concat (bss @ [r @ [p]]) @ [] = ps @ [p]"
      using all by simp
    moreover have "length (bss @ [r @ [p]]) = length (ps @ [p]) div ?n"
      using count rest eq by (simp add: div_Suc mod_Suc)
    moreover have "\<forall>b\<in>set (bss @ [r @ [p]]). length b = ?n"
      using full eq by simp
    moreover have "length ([]::Put list) = length (ps @ [p]) mod ?n"
      using rest eq by (simp add: mod_Suc)
    ultimately show ?thesis by blast
  next
    case False
    then have lt: "length r + 1 < ?n" by simp
    have "workerGlobal (WorkerWorldMap_puts m (ps @ [p])) =
            workerGlobal m @ map (\<lambda>b. (''map_add_cells'', flat b)) bss"
      using False flush_iff mode p posted
      by (simp add: WorkerWorldMap_puts_snoc WorkerWorldMap_putCell_posted)
    moreover have "cellQueue (WorkerWorldMap_puts m (ps @ [p])) = flat (r @ [p])"
      using False flush_iff mode p queue
      by (simp add: WorkerWorldMap_puts_snoc WorkerWorldMap_putCell_queue)
    moreover have "concat bss @ (r @ [p]) = ps @ [p]"
      using all by simp
    moreover have "length bss = length (ps @ [p]) div ?n"
      using count rest lt by (simp add: div_Suc mod_Suc)
    moreover have "length (r @ [p]) = length (ps @ [p]) mod ?n"
      using rest lt by (simp add: mod_Suc)
    ultimately show ?thesis using full by blast
  qed
qed

text \<open>
  C3. With the maximum cell queue length 50 that \<^verbatim>\<open>index.js\<close> passes, seventeen puts on
  distinct cells: after the sixteenth nothing has been posted, and the seventeenth
  makes the queue 51 entries long, so all seventeen are posted as one message and the
  queue is empty again. All of them are accepted: none of the cells was stored before,
  each is stored afterwards.
\<close>

theorem cell_queue_flushed_after_17_puts:
  "MAX_CELL_QUEUE = 50 \<and> length example_puts17 = 17 \<and>
   workerGlobal (WorkerWorldMap_puts (new_WorkerWorldMap 30 15 True False MAX_CELL_QUEUE)
     (take 16 example_puts17)) = [] \<and>
   workerGlobal (WorkerWorldMap_puts (new_WorkerWorldMap 30 15 True False MAX_CELL_QUEUE)
     example_puts17) = [(''map_add_cells'', flat example_puts17)] \<and>
   cellQueue (WorkerWorldMap_puts (new_WorkerWorldMap 30 15 True False MAX_CELL_QUEUE)
     example_puts17) = [] \<and>
   map (\<lambda>(c, x, y). stored (new_WorkerWorldMap 30 15 True False MAX_CELL_QUEUE) x y)
     example_puts17 = replicate 17 None \<and>
   map (\<lambda>(c, x, y). stored (WorkerWorldMap_puts
     (new_WorkerWorldMap 30 15 True False MAX_CELL_QUEUE) example_puts17) x y) example_puts17 =
     replicate 17 (Some CALCULATING)"
  by code_simp

section \<open>Snapshot and replay\<close>

lemma map_of_filter_value:
  "distinct (map fst l) \<Longrightarrow>
   map_of (filter (\<lambda>(k, v). P v) l) k =
     (case map_of l k of None \<Rightarrow> None | Some v \<Rightarrow> if P v then Some v else None)"
proof (induction l)
  case Nil
  then show ?case by simp
next
  case (Cons a l)
  obtain k0 v0 where a: "a = (k0, v0)" by (cases a)
  have "map_of l k0 = None"
    using Cons.prems a by (simp add: map_of_eq_None_iff)
  then show ?case
    using Cons a by (auto split: option.splits)
qed

lemma map_of_column:
  "map_of (map (\<lambda>(y, c). ((x0, y), c)) l) (x, y) = (if x = x0 then map_of l y else None)"
  by (induction l) auto

lemma map_of_columns:
  assumes "distinct (map fst xs)"
  shows "map_of (concat (map (\<lambda>(x, col). map (\<lambda>(y, c). ((x, y), c)) (f col)) xs)) (x, y) =
           (case map_of xs x of None \<Rightarrow> None | Some col \<Rightarrow> map_of (f col) y)"
  using assms
proof (induction xs)
  case Nil
  then show ?case by simp
next
  case (Cons a xs)
  obtain x0 col0 where a: "a = (x0, col0)" by (cases a)
  have none: "map_of xs x0 = None"
    using Cons.prems a by (simp add: map_of_eq_None_iff)
  have IH: "map_of (concat (map (\<lambda>(x, col). map (\<lambda>(y, c). ((x, y), c)) (f col)) xs)) (x, y) =
              (case map_of xs x of None \<Rightarrow> None | Some col \<Rightarrow> map_of (f col) y)"
    using Cons by simp
  show ?case
    using a none IH
    by (auto simp: map_of_column map_add_def split: option.splits)
qed

lemma keys_of_columns:
  assumes "k \<in> set (map fst (concat (map (\<lambda>(x, col). map (\<lambda>(y, c). ((x, y), c)) (f col)) xs)))"
  shows "fst k \<in> fst ` set xs"
proof -
  from assms obtain a where a: "a \<in> set xs"
    and k: "k \<in> set (map fst ((\<lambda>(x, col). map (\<lambda>(y, c). ((x, y), c)) (f col)) a))"
    unfolding set_map set_concat by blast
  obtain x0 col0 where a0: "a = (x0, col0)" by (cases a)
  from k a0 have "fst k = x0" by auto
  then show ?thesis using a a0 by force
qed

lemma distinct_column:
  "distinct (map fst l) \<Longrightarrow> distinct (map fst (map (\<lambda>(y, c). ((x0, y), c)) l))"
  by (induction l) (auto simp: image_iff)

lemma distinct_columns:
  assumes "distinct (map fst xs)" and "\<And>col. distinct (map fst (f col))"
  shows "distinct (map fst (concat (map (\<lambda>(x, col). map (\<lambda>(y, c). ((x, y), c)) (f col)) xs)))"
  using assms(1)
proof (induction xs)
  case Nil
  then show ?case by simp
next
  case (Cons a xs)
  obtain x0 col0 where a: "a = (x0, col0)" by (cases a)
  let ?rest = "concat (map (\<lambda>(x, col). map (\<lambda>(y, c). ((x, y), c)) (f col)) xs)"
  have fresh: "x0 \<notin> fst ` set xs"
    using Cons.prems a by auto
  have head: "distinct (map fst (map (\<lambda>(y, c). ((x0, y), c)) (f col0)))"
    by (rule distinct_column) (rule assms(2))
  have rest: "distinct (map fst ?rest)"
    using Cons by simp
  have disj: "set (map fst (map (\<lambda>(y, c). ((x0, y), c)) (f col0))) \<inter> set (map fst ?rest) = {}"
  proof (rule ccontr)
    assume "\<not> ?thesis"
    then obtain k where k1: "k \<in> set (map fst (map (\<lambda>(y, c). ((x0, y), c)) (f col0)))"
      and k2: "k \<in> set (map fst ?rest)"
      by blast
    from k1 have "fst k = x0" by auto
    moreover from k2 have "fst k \<in> fst ` set xs" by (rule keys_of_columns)
    ultimately show False using fresh by simp
  qed
  show ?case
    using a head rest disj by simp
qed

lemma distinct_filter_entries:
  "distinct (map fst (filter P (Map_entries col)))"
  by (simp add: Map_entries_def distinct_map_filter)

lemma mapToNodePairArray_distinct:
  "distinct (map fst (mapToNodePairArray this ignoreEmptyCells))"
  unfolding mapToNodePairArray_def
  by (rule distinct_columns) (simp_all add: Map_entries_def distinct_map_filter)

lemma map_of_Map_entries: "map_of (Map_entries m) k = Map_get m k"
  by (simp add: Map_entries_def Map_get_def DAList.lookup.rep_eq)

lemma mapToNodePairArray_map_of:
  "map_of (mapToNodePairArray this True) (x, y) =
     (case stored this x y of
        None \<Rightarrow> None
      | Some c \<Rightarrow> if c \<noteq> EMPTY then Some c else None)"
proof -
  have col: "map_of (filter (\<lambda>(y, cell). cell \<noteq> EMPTY) (Map_entries col)) y =
             (case Map_get col y of None \<Rightarrow> None | Some c \<Rightarrow> if c \<noteq> EMPTY then Some c else None)"
    for col :: "(int, CellType) JSMap"
    using map_of_filter_value [of "Map_entries col" "\<lambda>c. c \<noteq> EMPTY" y]
    by (simp add: map_of_Map_entries) (simp add: Map_entries_def)
  have eq: "mapToNodePairArray this True =
      concat (map (\<lambda>(x, col). map (\<lambda>(y, cell). ((x, y), cell))
                     (filter (\<lambda>(y, cell). cell \<noteq> EMPTY) (Map_entries col)))
                (Map_entries (map' this)))"
    by (simp add: mapToNodePairArray_def)
  have "map_of (mapToNodePairArray this True) (x, y) =
        (case map_of (Map_entries (map' this)) x of
           None \<Rightarrow> None
         | Some col \<Rightarrow> map_of (filter (\<lambda>(y, cell). cell \<noteq> EMPTY) (Map_entries col)) y)"
    unfolding eq by (rule map_of_columns) (simp add: Map_entries_def)
  also have "\<dots> = (case Map_get (map' this) x of
                     None \<Rightarrow> None
                   | Some col \<Rightarrow>
                       (case Map_get col y of
                          None \<Rightarrow> None
                        | Some c \<Rightarrow> if c \<noteq> EMPTY then Some c else None))"
    by (simp only: col map_of_Map_entries)
  also have "\<dots> = (case stored this x y of
                     None \<Rightarrow> None
                   | Some c \<Rightarrow> if c \<noteq> EMPTY then Some c else None)"
    by (simp add: stored_def split: option.splits)
  finally show ?thesis .
qed


lemma replayPairs_simps [simp]:
  "replayPairs this [] = this"
  "replayPairs this (((x, y), cell) # pairs) = replayPairs (snd (putCell this cell x y)) pairs"
  by (simp_all add: replayPairs_def)

lemma replayPairs_size [simp]: "size' (replayPairs this pairs) = size' this"
  unfolding replayPairs_def by (induction pairs arbitrary: this) (auto simp: split_def)

lemma replayPairs_hasBoundary [simp]:
  "hasBoundary (replayPairs this pairs) = hasBoundary this"
  unfolding replayPairs_def by (induction pairs arbitrary: this) (auto simp: split_def)

lemma replayPairs_stored:
  assumes "distinct (map fst pairs)"
    and "\<forall>p\<in>set pairs. stored this (fst (fst p)) (snd (fst p)) = None"
  shows "stored (replayPairs this pairs) x y =
           (if hasBoundary this \<and> outOfBounds this x y then stored this x y
            else case map_of pairs (x, y) of Some c \<Rightarrow> Some c | None \<Rightarrow> stored this x y)"
  using assms
proof (induction pairs arbitrary: this)
  case Nil
  then show ?case by simp
next
  case (Cons p pairs)
  obtain a b c where p: "p = ((a, b), c)" by (cases p) auto
  let ?this1 = "snd (putCell this c a b)"
  have unset: "stored this a b = None"
    using Cons.prems(2) p by simp
  have perm: "PERMANENT_CELL_TYPES (getCell this a b) = (hasBoundary this \<and> outOfBounds this a b)"
    using unset by (simp add: getCell_stored PERMANENT_CELL_TYPES_def)
  have fresh: "(a, b) \<notin> fst ` set pairs"
    using Cons.prems(1) p by simp
  have st1: "stored ?this1 x' y' =
      (if hasBoundary this \<and> outOfBounds this a b then stored this x' y'
       else if x' = a \<and> y' = b then Some c else stored this x' y')" for x' y'
    by (simp add: putCell_stored perm)
  have rest_unset: "\<forall>q\<in>set pairs. stored ?this1 (fst (fst q)) (snd (fst q)) = None"
  proof
    fix q assume q: "q \<in> set pairs"
    then have "fst q \<noteq> (a, b)" using fresh by force
    then have "\<not> (fst (fst q) = a \<and> snd (fst q) = b)" by (cases q) auto
    then show "stored ?this1 (fst (fst q)) (snd (fst q)) = None"
      using Cons.prems(2) q by (auto simp: st1)
  qed
  have none: "map_of pairs (a, b) = None"
    using fresh by (simp add: map_of_eq_None_iff)
  have IH: "stored (replayPairs ?this1 pairs) x y =
      (if hasBoundary this \<and> outOfBounds this x y then stored ?this1 x y
       else case map_of pairs (x, y) of Some c \<Rightarrow> Some c | None \<Rightarrow> stored ?this1 x y)"
    using Cons.IH [of ?this1] Cons.prems(1) rest_unset by simp
  show ?case
  proof (cases "x = a \<and> y = b")
    case True
    then show ?thesis using p IH none st1 unset by simp
  next
    case False
    then have m: "map_of (p # pairs) (x, y) = map_of pairs (x, y)"
      using p by auto
    have s: "stored ?this1 x y = stored this x y"
      using False by (auto simp: st1)
    have step: "replayPairs this (p # pairs) = replayPairs ?this1 pairs"
      using p by simp
    show ?thesis
      unfolding step IH m s by (rule refl)
  qed
qed

lemma snapshot_replay_getCell:
  assumes "map' fresh = Map_new" and "size' fresh = size' this"
    and "hasBoundary fresh = hasBoundary this"
  shows "getCell (replayPairs fresh (mapToNodePairArray this True)) x y = getCell this x y"
proof -
  have unset: "stored fresh x' y' = None" for x' y'
    using assms(1) by (simp add: stored_def)
  have oob: "outOfBounds fresh x y = outOfBounds this x y"
    using assms(2) by (simp add: outOfBounds_def)
  have "stored (replayPairs fresh (mapToNodePairArray this True)) x y =
          (if hasBoundary fresh \<and> outOfBounds fresh x y then stored fresh x y
           else case map_of (mapToNodePairArray this True) (x, y) of
                  Some c \<Rightarrow> Some c | None \<Rightarrow> stored fresh x y)"
    by (rule replayPairs_stored) (simp_all add: mapToNodePairArray_distinct unset)
  then show ?thesis
    using assms(3) oob
    by (auto simp: getCell_stored outOfBounds_def unset mapToNodePairArray_map_of
        split: option.splits)
qed

text \<open>
  C8. Take the snapshot of a map that leaves out the empty cells, and put its pairs, in
  order, on a map that has no stored cells and the same size and boundary flag, such as
  the map itself after \<^verbatim>\<open>clearMap\<close>. The result reads the same as the original map at
  every coordinate.
\<close>

theorem snapshot_replay_round_trip:
  assumes "map' fresh = Map_new" and "size' fresh = size' this"
    and "hasBoundary fresh = hasBoundary this"
  shows "\<forall>x y. getCell (replayPairs fresh (mapToNodePairArray this True)) x y = getCell this x y"
  using snapshot_replay_getCell [OF assms] by blast


theorem snapshot_replay_round_trip_witness:
  "map' (clearMap example_map) = Map_new \<and> size' (clearMap example_map) = size' example_map \<and>
   hasBoundary (clearMap example_map) = hasBoundary example_map \<and>
   mapToNodePairArray example_map True = [((1, 2), START), ((3, 4), CALCULATING), ((3, 5), GOAL)] \<and>
   getCell (replayPairs (clearMap example_map) (mapToNodePairArray example_map True)) 3 4 =
     CALCULATING \<and>
   getCell (replayPairs (clearMap example_map) (mapToNodePairArray example_map True)) 0 0 = EMPTY"
proof -
  have h: "map' (clearMap example_map) = Map_new" "size' (clearMap example_map) = size' example_map"
    "hasBoundary (clearMap example_map) = hasBoundary example_map"
    by simp_all
  have snap: "mapToNodePairArray example_map True =
      [((1, 2), START), ((3, 4), CALCULATING), ((3, 5), GOAL)]"
    by code_simp
  from snapshot_replay_round_trip [OF h] have
    "getCell (replayPairs (clearMap example_map) (mapToNodePairArray example_map True)) 3 4 =
       getCell example_map 3 4"
    "getCell (replayPairs (clearMap example_map) (mapToNodePairArray example_map True)) 0 0 =
       getCell example_map 0 0"
    by blast+
  then have "getCell (replayPairs (clearMap example_map) (mapToNodePairArray example_map True)) 3 4 =
       CALCULATING"
    "getCell (replayPairs (clearMap example_map) (mapToNodePairArray example_map True)) 0 0 =
       EMPTY"
    by (simp_all only: example_map_reads)
  with h snap show ?thesis by (simp only: simp_thms)
qed

end
